theory Spec2Isabelle
  imports Main "HOL-Library.Sublist"
begin

section \<open>Data model\<close>

text \<open>
  The relational store behind \<^verbatim>\<open>PrismaService\<close> is a record of tables, each table a list
  of rows in insertion order. Identifiers are the store's strings (uuids). Columns the
  store fills in by itself and no modelled operation reads (row ids of versions, grants
  and notifications, \<^verbatim>\<open>createdAt\<close>, \<^verbatim>\<open>updatedAt\<close>) are left out. Version numbers are the
  store's integers; the numbers the service writes start at 1 and grow by 1, far below any
  bound of the column type.
\<close>

type_synonym ident = string

datatype Visibility = PRIVATE | SHARED | PUBLIC

datatype NotificationType = NOTE_SHARED | NOTE_UPDATED | SYSTEM

datatype error = NotFound | Forbidden | BadRequest

record User =
  u_id :: ident
  u_email :: string
  u_name :: string

record Note =
  n_id :: ident
  n_title :: string
  n_description :: string
  n_tags :: "string list"
  n_visibility :: Visibility
  n_authorId :: ident

record NoteVersion =
  nv_noteId :: ident
  nv_title :: string
  nv_description :: string
  nv_version :: int
  nv_createdBy :: ident

text \<open>
  A share grant. The service writes the permission as the literal \<^verbatim>\<open>'VIEW'\<close>; the column is
  kept as that string.
\<close>

record NoteUser =
  nu_noteId :: ident
  nu_userId :: ident
  nu_permission :: string

record Notification =
  nt_userId :: ident
  nt_type :: NotificationType
  nt_title :: string
  nt_message :: string
  nt_data :: "(string \<times> string) list"
  nt_read :: bool

record Db =
  tbl_note :: "Note list"
  tbl_noteVersion :: "NoteVersion list"
  tbl_noteUser :: "NoteUser list"
  tbl_user :: "User list"
  tbl_notification :: "Notification list"

section \<open>Reading notes (\<^verbatim>\<open>notes.service.ts\<close>)\<close>

text \<open>\<^verbatim>\<open>prisma.note.findUnique({ where: { id } })\<close>\<close>

definition note_findUnique :: "Db \<Rightarrow> ident \<Rightarrow> Note option" where
  "note_findUnique db i = find (\<lambda>n. n_id n = i) (tbl_note db)"

text \<open>The relation \<^verbatim>\<open>note.noteUsers\<close> that \<^verbatim>\<open>include\<close> loads with a note.\<close>

definition include_noteUsers :: "Db \<Rightarrow> Note \<Rightarrow> NoteUser list" where
  "include_noteUsers db note = filter (\<lambda>g. nu_noteId g = n_id note) (tbl_noteUser db)"

text \<open>The relation \<^verbatim>\<open>note.versions\<close>, in insertion order.\<close>

definition versions_of :: "Db \<Rightarrow> ident \<Rightarrow> NoteVersion list" where
  "versions_of db i = filter (\<lambda>v. nv_noteId v = i) (tbl_noteVersion db)"

text \<open>The \<^verbatim>\<open>hasAccess\<close> expression of \<^verbatim>\<open>findOne\<close>.\<close>

definition hasAccess :: "Db \<Rightarrow> Note \<Rightarrow> ident \<Rightarrow> bool" where
  "hasAccess db note userId \<longleftrightarrow>
     n_authorId note = userId \<or>
     n_visibility note = PUBLIC \<or>
     (n_visibility note = SHARED \<and>
      list_ex (\<lambda>share. nu_userId share = userId) (include_noteUsers db note))"

definition findOne :: "Db \<Rightarrow> ident \<Rightarrow> ident \<Rightarrow> error + Note" where
  "findOne db i userId =
     (case note_findUnique db i of
        None \<Rightarrow> Inl NotFound
      | Some note \<Rightarrow> if \<not> hasAccess db note userId then Inl Forbidden else Inr note)"

text \<open>
  The access clause that \<^verbatim>\<open>findAll\<close>, \<^verbatim>\<open>advancedSearch\<close> and \<^verbatim>\<open>getSearchSuggestions\<close> put
  first in their \<^verbatim>\<open>where\<close>: \<^verbatim>\<open>OR [authorId, PUBLIC, AND [SHARED, noteUsers some userId]]\<close>.
\<close>

definition accessControl :: "Db \<Rightarrow> ident \<Rightarrow> Note \<Rightarrow> bool" where
  "accessControl db userId note \<longleftrightarrow>
     list_ex id
       [n_authorId note = userId,
        n_visibility note = PUBLIC,
        list_all id
          [n_visibility note = SHARED,
           list_ex (\<lambda>g. nu_noteId g = n_id note \<and> nu_userId g = userId) (tbl_noteUser db)]]"

text \<open>
  The filters of \<^verbatim>\<open>findAll\<close>. A filter that is absent, or falsy in JavaScript (the empty
  string, the empty tag list), contributes the empty clause. The case-insensitive
  substring test is the store's and is a parameter.
\<close>

record QueryNotesDto =
  q_search :: "string option"
  q_tags :: "string list option"
  q_visibility :: "Visibility option"
  q_authorId :: "ident option"

definition findAll_where ::
  "(string \<Rightarrow> string \<Rightarrow> bool) \<Rightarrow> QueryNotesDto \<Rightarrow> ident \<Rightarrow> Db \<Rightarrow> Note \<Rightarrow> bool" where
  "findAll_where icontains q userId db note \<longleftrightarrow>
     accessControl db userId note \<and>
     (case q_search q of
        None \<Rightarrow> True
      | Some s \<Rightarrow> if s = [] then True
                  else icontains (n_title note) s \<or> icontains (n_description note) s) \<and>
     (case q_tags q of
        None \<Rightarrow> True
      | Some ts \<Rightarrow> if length ts = 0 then True else list_ex (\<lambda>t. t \<in> set (n_tags note)) ts) \<and>
     (case q_visibility q of None \<Rightarrow> True | Some v \<Rightarrow> n_visibility note = v) \<and>
     (case q_authorId q of
        None \<Rightarrow> True
      | Some a \<Rightarrow> if a = [] then True else n_authorId note = a)"

text \<open>The rows the \<^verbatim>\<open>where\<close> of \<^verbatim>\<open>findAll\<close> selects, and the \<^verbatim>\<open>total\<close> it reports.\<close>

definition findAll_matching ::
  "(string \<Rightarrow> string \<Rightarrow> bool) \<Rightarrow> QueryNotesDto \<Rightarrow> ident \<Rightarrow> Db \<Rightarrow> Note list" where
  "findAll_matching icontains q userId db = filter (findAll_where icontains q userId db) (tbl_note db)"

definition findAll_total ::
  "(string \<Rightarrow> string \<Rightarrow> bool) \<Rightarrow> QueryNotesDto \<Rightarrow> ident \<Rightarrow> Db \<Rightarrow> nat" where
  "findAll_total icontains q userId db = length (findAll_matching icontains q userId db)"

text \<open>
  The read rule in the words of the specification: the requester is the author, or the
  note is PUBLIC, or the note is SHARED and a grant exists for the pair (note, requester).
\<close>

definition canRead_spec :: "Db \<Rightarrow> Note \<Rightarrow> ident \<Rightarrow> bool" where
  "canRead_spec db note requesterId \<longleftrightarrow>
     requesterId = n_authorId note \<or>
     n_visibility note = PUBLIC \<or>
     (n_visibility note = SHARED \<and>
      (\<exists>g \<in> set (tbl_noteUser db). nu_noteId g = n_id note \<and> nu_userId g = requesterId))"

section \<open>The note lifecycle (\<^verbatim>\<open>notes.service.ts\<close>)\<close>

text \<open>
  \<^verbatim>\<open>create\<close>: one transaction inserts the note and its version 1. The note id is generated
  by the store; it is the argument \<open>newId\<close>. A tag list or visibility that is absent
  takes the default.
\<close>

record CreateNoteDto =
  c_title :: string
  c_description :: string
  c_tags :: "string list option"
  c_visibility :: "Visibility option"

definition create :: "Db \<Rightarrow> ident \<Rightarrow> CreateNoteDto \<Rightarrow> ident \<Rightarrow> Db \<times> Note" where
  "create db newId createNoteDto userId =
     (let note = \<lparr>n_id = newId,
                  n_title = c_title createNoteDto,
                  n_description = c_description createNoteDto,
                  n_tags = (case c_tags createNoteDto of None \<Rightarrow> [] | Some ts \<Rightarrow> ts),
                  n_visibility = (case c_visibility createNoteDto of None \<Rightarrow> PRIVATE | Some v \<Rightarrow> v),
                  n_authorId = userId\<rparr>;
          db1 = db\<lparr>tbl_note := tbl_note db @ [note]\<rparr>;
          db2 = db1\<lparr>tbl_noteVersion := tbl_noteVersion db1 @
                  [\<lparr>nv_noteId = n_id note, nv_title = n_title note,
                    nv_description = n_description note, nv_version = 1,
                    nv_createdBy = userId\<rparr>]\<rparr>
      in (db2, note))"

text \<open>\<^verbatim>\<open>tx.note.update({ where: { id }, data })\<close>: the row with that id gets the new columns.\<close>

definition note_update :: "Db \<Rightarrow> ident \<Rightarrow> (Note \<Rightarrow> Note) \<Rightarrow> Db" where
  "note_update db i f = db\<lparr>tbl_note := map (\<lambda>n. if n_id n = i then f n else n) (tbl_note db)\<rparr>"

text \<open>
  \<^verbatim>\<open>tx.noteVersion.findFirst({ where: { noteId }, orderBy: { version: 'desc' } })\<close>: a row
  of the note with the greatest version number, if the note has any.
\<close>

definition latestVersion :: "Db \<Rightarrow> ident \<Rightarrow> NoteVersion option" where
  "latestVersion db i =
     (case versions_of db i of
        [] \<Rightarrow> None
      | v # vs \<Rightarrow> Some (fold (\<lambda>x best. if nv_version best < nv_version x then x else best) vs v))"

text \<open>\<^verbatim>\<open>(latestVersion?.version || 0) + 1\<close>; the number 0 is falsy.\<close>

definition nextVersion :: "Db \<Rightarrow> ident \<Rightarrow> int" where
  "nextVersion db i =
     (case latestVersion db i of
        None \<Rightarrow> 0
      | Some lv \<Rightarrow> if nv_version lv = 0 then 0 else nv_version lv) + 1"

definition noteVersion_create :: "Db \<Rightarrow> NoteVersion \<Rightarrow> Db" where
  "noteVersion_create db row = db\<lparr>tbl_noteVersion := tbl_noteVersion db @ [row]\<rparr>"

record UpdateNoteDto =
  up_title :: "string option"
  up_description :: "string option"
  up_tags :: "string list option"
  up_visibility :: "Visibility option"

text \<open>The test of \<^verbatim>\<open>update\<close> that decides whether a version is written.\<close>

definition contentChanged :: "UpdateNoteDto \<Rightarrow> Note \<Rightarrow> bool" where
  "contentChanged updateNoteDto existingNote \<longleftrightarrow>
     (up_title updateNoteDto \<noteq> None \<and> up_title updateNoteDto \<noteq> Some (n_title existingNote)) \<or>
     (up_description updateNoteDto \<noteq> None \<and>
      up_description updateNoteDto \<noteq> Some (n_description existingNote))"

definition applyUpdate :: "UpdateNoteDto \<Rightarrow> Note \<Rightarrow> Note \<Rightarrow> Note" where
  "applyUpdate updateNoteDto existingNote row =
     row\<lparr>n_title := (case up_title updateNoteDto of None \<Rightarrow> n_title existingNote | Some t \<Rightarrow> t),
         n_description :=
           (case up_description updateNoteDto of None \<Rightarrow> n_description existingNote | Some d \<Rightarrow> d),
         n_tags := (case up_tags updateNoteDto of None \<Rightarrow> n_tags existingNote | Some ts \<Rightarrow> ts),
         n_visibility :=
           (case up_visibility updateNoteDto of None \<Rightarrow> n_visibility existingNote | Some v \<Rightarrow> v)\<rparr>"

definition update :: "Db \<Rightarrow> ident \<Rightarrow> UpdateNoteDto \<Rightarrow> ident \<Rightarrow> error + Db \<times> Note" where
  "update db i updateNoteDto userId =
     (case findOne db i userId of
        Inl e \<Rightarrow> Inl e
      | Inr existingNote \<Rightarrow>
          if n_authorId existingNote \<noteq> userId then Inl Forbidden
          else
            let updatedNote = applyUpdate updateNoteDto existingNote existingNote;
                db1 = note_update db i (applyUpdate updateNoteDto existingNote);
                db2 = (if contentChanged updateNoteDto existingNote
                       then noteVersion_create db1
                              \<lparr>nv_noteId = i, nv_title = n_title updatedNote,
                               nv_description = n_description updatedNote,
                               nv_version = nextVersion db1 i, nv_createdBy = userId\<rparr>
                       else db1)
            in Inr (db2, updatedNote))"

text \<open>\<^verbatim>\<open>prisma.noteVersion.findFirst({ where: { noteId, version } })\<close>\<close>

definition findVersion :: "Db \<Rightarrow> ident \<Rightarrow> int \<Rightarrow> NoteVersion option" where
  "findVersion db i v = find (\<lambda>r. nv_noteId r = i \<and> nv_version r = v) (tbl_noteVersion db)"

definition restoreVersion :: "Db \<Rightarrow> ident \<Rightarrow> int \<Rightarrow> ident \<Rightarrow> error + Db \<times> Note" where
  "restoreVersion db noteId version userId =
     (case findOne db noteId userId of
        Inl e \<Rightarrow> Inl e
      | Inr note \<Rightarrow>
          if n_authorId note \<noteq> userId then Inl Forbidden
          else
            (case findVersion db noteId version of
               None \<Rightarrow> Inl NotFound
             | Some targetVersion \<Rightarrow>
                 let restore = (\<lambda>row. row\<lparr>n_title := nv_title targetVersion,
                                           n_description := nv_description targetVersion\<rparr>);
                     updatedNote = restore note;
                     db1 = note_update db noteId restore;
                     db2 = noteVersion_create db1
                             \<lparr>nv_noteId = noteId, nv_title = nv_title targetVersion,
                              nv_description = nv_description targetVersion,
                              nv_version = nextVersion db1 noteId, nv_createdBy = userId\<rparr>
                 in Inr (db2, updatedNote)))"

section \<open>Sharing (\<^verbatim>\<open>notes.service.ts\<close>)\<close>

text \<open>
  \<^verbatim>\<open>shareNote\<close>: the ids are validated by counting the users found among them; then one
  transaction deletes the grants of the note, inserts one row per listed id when the list
  is not empty, and turns a PRIVATE note SHARED. It returns the note as read back.
\<close>

definition shareNote :: "Db \<Rightarrow> ident \<Rightarrow> ident list \<Rightarrow> ident \<Rightarrow> error + Db \<times> Note option" where
  "shareNote db noteId userIds userId =
     (case findOne db noteId userId of
        Inl e \<Rightarrow> Inl e
      | Inr note \<Rightarrow>
          if n_authorId note \<noteq> userId then Inl Forbidden
          else
            let found = filter (\<lambda>u. u_id u \<in> set userIds) (tbl_user db) in
            if length found \<noteq> length userIds then Inl BadRequest
            else
              let db1 = db\<lparr>tbl_noteUser := filter (\<lambda>g. nu_noteId g \<noteq> noteId) (tbl_noteUser db)\<rparr>;
                  db2 = (if length userIds > 0
                         then db1\<lparr>tbl_noteUser := tbl_noteUser db1 @
                                map (\<lambda>uid. \<lparr>nu_noteId = noteId, nu_userId = uid,
                                            nu_permission = ''VIEW''\<rparr>) userIds\<rparr>
                         else db1);
                  db3 = (if n_visibility note = PRIVATE
                         then note_update db2 noteId (\<lambda>row. row\<lparr>n_visibility := SHARED\<rparr>)
                         else db2)
              in Inr (db3, note_findUnique db3 noteId))"

section \<open>Operations on one note, in sequence\<close>

text \<open>
  A request on the note, with the user who makes it. A request that fails raises its
  exception to the caller and leaves the store as it was.
\<close>

datatype NoteOp =
  OpUpdate UpdateNoteDto ident
| OpRestore int ident
| OpShare "ident list" ident

fun applyOp :: "ident \<Rightarrow> Db \<Rightarrow> NoteOp \<Rightarrow> Db" where
  "applyOp i db (OpUpdate dto uid) = (case update db i dto uid of Inl e \<Rightarrow> db | Inr r \<Rightarrow> fst r)"
| "applyOp i db (OpRestore v uid) = (case restoreVersion db i v uid of Inl e \<Rightarrow> db | Inr r \<Rightarrow> fst r)"
| "applyOp i db (OpShare uids uid) = (case shareNote db i uids uid of Inl e \<Rightarrow> db | Inr r \<Rightarrow> fst r)"

definition applyOps :: "ident \<Rightarrow> Db \<Rightarrow> NoteOp list \<Rightarrow> Db" where
  "applyOps i db ops = foldl (applyOp i) db ops"

section \<open>Notifications (\<^verbatim>\<open>notifications.service.ts\<close>)\<close>

text \<open>
  \<^verbatim>\<open>createNoteSharedNotification\<close>, the helper that writes the NOTE_SHARED row for one
  recipient. A new notification is unread.
\<close>

definition createNoteSharedNotification :: "Db \<Rightarrow> ident \<Rightarrow> string \<Rightarrow> ident \<Rightarrow> ident \<Rightarrow> Db" where
  "createNoteSharedNotification db noteId noteTitle sharedWithUserId sharedByUserId =
     (let displayName =
            (case find (\<lambda>u. u_id u = sharedByUserId) (tbl_user db) of
               None \<Rightarrow> ''Someone''
             | Some u \<Rightarrow> if u_name u = [] then ''Someone'' else u_name u)
      in db\<lparr>tbl_notification := tbl_notification db @
              [\<lparr>nt_userId = sharedWithUserId, nt_type = NOTE_SHARED, nt_title = ''Note Shared'',
                nt_message = displayName @ '' shared a note '' @ [CHR 0x22] @ noteTitle @
                             [CHR 0x22] @ '' with you'',
                nt_data = [(''noteId'', noteId), (''sharedByUserId'', sharedByUserId)],
                nt_read = False\<rparr>]\<rparr>)"

section \<open>The presence registry (\<^verbatim>\<open>websocket.gateway.ts\<close>)\<close>

text \<open>
  A socket carries its id, the two places of the handshake where a token may be, the
  \<^verbatim>\<open>userId\<close> the gateway sets on it, the rooms it joined and whether it is still
  connected. The gateway's \<^verbatim>\<open>connectedUsers\<close> maps a user id to a socket id. Messages
  emitted to a client and log lines are not part of the state.
\<close>

record AuthenticatedSocket =
  s_id :: string
  s_auth_token :: "string option"
  s_authorization :: "string option"
  s_userId :: "ident option"
  s_rooms :: "string list"
  s_connected :: bool

type_synonym connectedUsers = "ident \<rightharpoonup> string"

text \<open>\<^verbatim>\<open>String.prototype.replace\<close> with a string pattern: the first occurrence only.\<close>

fun replace_first :: "string \<Rightarrow> string \<Rightarrow> string \<Rightarrow> string" where
  "replace_first pat rep [] = (if pat = [] then rep else [])"
| "replace_first pat rep (c # cs) =
     (if prefix pat (c # cs) then rep @ drop (length pat) (c # cs)
      else c # replace_first pat rep cs)"

text \<open>\<^verbatim>\<open>auth?.token || headers?.authorization?.replace('Bearer ', '')\<close>\<close>

definition handshake_token :: "AuthenticatedSocket \<Rightarrow> string option" where
  "handshake_token client =
     (let fromHeader = map_option (replace_first ''Bearer '' []) (s_authorization client)
      in case s_auth_token client of
           None \<Rightarrow> fromHeader
         | Some t \<Rightarrow> if t = [] then fromHeader else Some t)"

definition client_disconnect :: "AuthenticatedSocket \<Rightarrow> AuthenticatedSocket" where
  "client_disconnect client = client\<lparr>s_connected := False\<rparr>"

text \<open>
  \<^verbatim>\<open>handleConnection\<close>. The token check of the JWT service is the parameter \<open>verify\<close>: it
  gives the subject of a valid token and \<open>None\<close> where \<^verbatim>\<open>jwtService.verify\<close> throws, which
  the \<^verbatim>\<open>catch\<close> answers by disconnecting the client.
\<close>

definition handleConnection ::
  "(string \<Rightarrow> ident option) \<Rightarrow> Db \<Rightarrow> connectedUsers \<Rightarrow> AuthenticatedSocket
     \<Rightarrow> connectedUsers \<times> AuthenticatedSocket" where
  "handleConnection verify db reg client =
     (case handshake_token client of
        None \<Rightarrow> (reg, client_disconnect client)
      | Some token \<Rightarrow>
          if token = [] then (reg, client_disconnect client)
          else
            (case verify token of
               None \<Rightarrow> (reg, client_disconnect client)
             | Some sub \<Rightarrow>
                 (case find (\<lambda>u. u_id u = sub) (tbl_user db) of
                    None \<Rightarrow> (reg, client_disconnect client)
                  | Some user \<Rightarrow>
                      (reg(u_id user \<mapsto> s_id client),
                       client\<lparr>s_userId := Some (u_id user),
                              s_rooms := s_rooms client @ [''user:'' @ u_id user]\<rparr>))))"

text \<open>\<^verbatim>\<open>handleDisconnect\<close>: a client with a (truthy) \<^verbatim>\<open>userId\<close> has its user's entry deleted.\<close>

definition handleDisconnect ::
  "connectedUsers \<Rightarrow> AuthenticatedSocket \<Rightarrow> connectedUsers" where
  "handleDisconnect reg client =
     (case s_userId client of
        None \<Rightarrow> reg
      | Some uid \<Rightarrow> if uid = [] then reg else reg(uid := None))"

definition isUserOnline :: "connectedUsers \<Rightarrow> ident \<Rightarrow> bool" where
  "isUserOnline reg userId \<longleftrightarrow> reg userId \<noteq> None"

section \<open>A small store for concrete runs\<close>

definition users_ex :: "User list" where
  "users_ex =
     [\<lparr>u_id = ''alice'', u_email = ''alice@example.com'', u_name = ''Alice''\<rparr>,
      \<lparr>u_id = ''bob'', u_email = ''bob@example.com'', u_name = ''Bob''\<rparr>,
      \<lparr>u_id = ''carol'', u_email = ''carol@example.com'', u_name = ''Carol''\<rparr>]"

definition note_ex :: Note where
  "note_ex = \<lparr>n_id = ''n1'', n_title = ''T'', n_description = ''B'', n_tags = [],
              n_visibility = PRIVATE, n_authorId = ''alice''\<rparr>"

definition version1_ex :: NoteVersion where
  "version1_ex = \<lparr>nv_noteId = ''n1'', nv_title = ''T'', nv_description = ''B'', nv_version = 1,
                  nv_createdBy = ''alice''\<rparr>"

text \<open>No note yet.\<close>

definition db_empty_ex :: Db where
  "db_empty_ex = \<lparr>tbl_note = [], tbl_noteVersion = [], tbl_noteUser = [],
                  tbl_user = users_ex, tbl_notification = []\<rparr>"

text \<open>Alice's PRIVATE note with its first version.\<close>

definition db_ex :: Db where
  "db_ex = \<lparr>tbl_note = [note_ex], tbl_noteVersion = [version1_ex], tbl_noteUser = [],
            tbl_user = users_ex, tbl_notification = []\<rparr>"

text \<open>The same note, SHARED with Bob.\<close>

definition db_shared_ex :: Db where
  "db_shared_ex =
     \<lparr>tbl_note = [note_ex\<lparr>n_visibility := SHARED\<rparr>], tbl_noteVersion = [version1_ex],
      tbl_noteUser = [\<lparr>nu_noteId = ''n1'', nu_userId = ''bob'', nu_permission = ''VIEW''\<rparr>],
      tbl_user = users_ex, tbl_notification = []\<rparr>"

text \<open>A token check that accepts two tokens of Alice, and two sockets presenting them.\<close>

definition verify_ex :: "string \<Rightarrow> ident option" where
  "verify_ex token = (if token = ''t1'' \<or> token = ''t2'' then Some ''alice'' else None)"

definition socket1_ex :: AuthenticatedSocket where
  "socket1_ex = \<lparr>s_id = ''s1'', s_auth_token = Some ''t1'', s_authorization = None,
                 s_userId = None, s_rooms = [], s_connected = True\<rparr>"

definition socket2_ex :: AuthenticatedSocket where
  "socket2_ex = \<lparr>s_id = ''s2'', s_auth_token = None, s_authorization = Some ''Bearer t2'',
                 s_userId = None, s_rooms = [], s_connected = True\<rparr>"

section \<open>Read eligibility\<close>

lemma hasAccess_canRead: "hasAccess db note u = canRead_spec db note u"
  by (auto simp: hasAccess_def canRead_spec_def include_noteUsers_def list_ex_iff)

lemma accessControl_canRead: "accessControl db u note = canRead_spec db note u"
  by (auto simp: accessControl_def canRead_spec_def list_ex_iff)

lemma findAll_where_canRead:
  "findAll_where ic q u db note \<Longrightarrow> canRead_spec db note u"
  by (simp add: findAll_where_def accessControl_canRead)

lemma findAll_where_no_filter:
  "findAll_where ic \<lparr>q_search = None, q_tags = None, q_visibility = None, q_authorId = None\<rparr>
     u db note = canRead_spec db note u"
  by (simp add: findAll_where_def accessControl_canRead)

lemma findAll_where_no_filter_fun:
  "findAll_where ic \<lparr>q_search = None, q_tags = None, q_visibility = None, q_authorId = None\<rparr>
     u db = (\<lambda>n. canRead_spec db n u)"
  by (rule ext) (rule findAll_where_no_filter)

lemma findOne_author:
  "note_findUnique db i = Some n \<Longrightarrow> n_authorId n = u \<Longrightarrow> findOne db i u = Inr n"
  by (simp add: findOne_def hasAccess_def)

text \<open>
  C1. For every note and requesting user, the access test of the single-note read
  (\<open>hasAccess\<close>) and the access clause of the list and search queries (\<open>accessControl\<close>)
  both hold exactly when the user is the author, or the note is PUBLIC, or the note is
  SHARED and a grant row exists for the pair; \<open>findOne\<close> returns an existing note exactly
  in that case and refuses it otherwise; every row \<open>findAll\<close> selects passes the rule, and
  without filters \<open>findAll\<close> selects, and counts, exactly the rows that pass it.
\<close>

theorem C1_read_eligibility:
  "(hasAccess db note u \<longleftrightarrow> canRead_spec db note u) \<and>
   (accessControl db u note \<longleftrightarrow> canRead_spec db note u) \<and>
   (note_findUnique db i = Some note \<longrightarrow>
      findOne db i u = (if canRead_spec db note u then Inr note else Inl Forbidden)) \<and>
   (findAll_where ic q u db note \<longrightarrow> canRead_spec db note u) \<and>
   findAll_matching ic \<lparr>q_search = None, q_tags = None, q_visibility = None, q_authorId = None\<rparr>
      u db = filter (\<lambda>n. canRead_spec db n u) (tbl_note db) \<and>
   findAll_total ic \<lparr>q_search = None, q_tags = None, q_visibility = None, q_authorId = None\<rparr>
      u db = length (filter (\<lambda>n. canRead_spec db n u) (tbl_note db))"
  by (simp add: hasAccess_canRead accessControl_canRead findAll_where_canRead
      findAll_matching_def findAll_total_def findAll_where_no_filter_fun findOne_def)

theorem C1_witness:
  "note_findUnique db_shared_ex ''n1'' = Some (note_ex\<lparr>n_visibility := SHARED\<rparr>) \<and>
   findOne db_shared_ex ''n1'' ''bob'' = Inr (note_ex\<lparr>n_visibility := SHARED\<rparr>) \<and>
   findOne db_shared_ex ''n1'' ''carol'' = Inl Forbidden \<and>
   findAll_where (\<lambda>a b. True) \<lparr>q_search = Some ''x'', q_tags = None, q_visibility = Some SHARED, q_authorId = None\<rparr>
     ''bob'' db_shared_ex (note_ex\<lparr>n_visibility := SHARED\<rparr>) \<and>
   canRead_spec db_shared_ex (note_ex\<lparr>n_visibility := SHARED\<rparr>) ''bob''"
  using C1_read_eligibility [of db_shared_ex "note_ex\<lparr>n_visibility := SHARED\<rparr>" "''bob''" "''n1''" "\<lambda>a b. True"
       "\<lparr>q_search = Some ''x'', q_tags = None, q_visibility = Some SHARED, q_authorId = None\<rparr>"]
    C1_read_eligibility [of db_shared_ex "note_ex\<lparr>n_visibility := SHARED\<rparr>" "''carol''" "''n1''"]
  by (simp add: db_shared_ex_def note_ex_def note_findUnique_def canRead_spec_def findAll_where_def
      accessControl_def)

text \<open>
  C7. A single-note read of an id that resolves to no note fails with NotFound, and only
  then; a read of an existing note the requester may not read fails with Forbidden, and
  only then; the read raises no other error.
\<close>

theorem C7_notfound_vs_forbidden:
  "(findOne db i u = Inl NotFound \<longleftrightarrow> i \<notin> n_id ` set (tbl_note db)) \<and>
   (findOne db i u = Inl Forbidden \<longleftrightarrow>
      (\<exists>n. note_findUnique db i = Some n \<and> \<not> canRead_spec db n u)) \<and>
   findOne db i u \<noteq> Inl BadRequest"
proof -
  have none: "note_findUnique db i = None \<longleftrightarrow> i \<notin> n_id ` set (tbl_note db)"
    by (auto simp: note_findUnique_def find_None_iff)
  show ?thesis
  proof (cases "note_findUnique db i")
    case None
    with none show ?thesis by (simp add: findOne_def)
  next
    case (Some n)
    with none have "i \<in> n_id ` set (tbl_note db)" by auto
    with Some show ?thesis
      by (simp add: findOne_def hasAccess_canRead)
  qed
qed

theorem C7_witness:
  "findOne db_ex ''n2'' ''bob'' = Inl NotFound \<and> findOne db_ex ''n1'' ''bob'' = Inl Forbidden \<and>
   findOne db_shared_ex ''n1'' ''carol'' = Inl Forbidden"
  using C7_notfound_vs_forbidden [of db_ex "''n2''" "''bob''"]
    C7_notfound_vs_forbidden [of db_ex "''n1''" "''bob''"]
    C7_notfound_vs_forbidden [of db_shared_ex "''n1''" "''carol''"]
  by (simp add: db_ex_def db_shared_ex_def note_ex_def note_findUnique_def canRead_spec_def)

section \<open>Version rows written by update and restore\<close>

lemma fold_latest_Max:
  "nv_version (fold (\<lambda>x best. if nv_version best < nv_version x then x else best) vs v)
     = Max (nv_version ` set (v # vs))"
proof (induction vs arbitrary: v)
  case Nil
  show ?case by simp
next
  case (Cons w ws)
  have fin: "finite (nv_version ` set ws)" by simp
  show ?case
  proof (cases "nv_version v < nv_version w")
    case True
    then have "max (nv_version v) (max (nv_version w) m) = max (nv_version w) m" for m
      by simp
    with True Cons.IH [of w] show ?thesis
      by (cases "ws = []") (simp_all add: max.assoc)
  next
    case False
    then have "max (nv_version v) (max (nv_version w) m) = max (nv_version v) m" for m
      by (simp add: max_def)
    with False Cons.IH [of v] show ?thesis
      by (cases "ws = []") (simp_all add: max_def)
  qed
qed

lemma latestVersion_Max:
  "versions_of db i \<noteq> [] \<Longrightarrow>
   \<exists>lv. latestVersion db i = Some lv \<and> nv_version lv = Max (nv_version ` set (versions_of db i))"
  unfolding latestVersion_def
  by (cases "versions_of db i") (simp_all only: list.simps fold_latest_Max option.inject simp_thms ex_simps)

lemma nextVersion_Max:
  "nextVersion db i =
     (if versions_of db i = [] then 1 else Max (nv_version ` set (versions_of db i)) + 1)"
proof (cases "versions_of db i = []")
  case True
  then show ?thesis by (simp add: nextVersion_def latestVersion_def)
next
  case False
  from latestVersion_Max [OF False] obtain lv where
    "latestVersion db i = Some lv" "nv_version lv = Max (nv_version ` set (versions_of db i))"
    by blast
  with False show ?thesis by (simp add: nextVersion_def)
qed

lemma versions_of_note_update [simp]: "versions_of (note_update db i f) j = versions_of db j"
  by (simp add: versions_of_def note_update_def)

lemma nextVersion_note_update [simp]: "nextVersion (note_update db i f) j = nextVersion db j"
  by (simp add: nextVersion_def latestVersion_def)

lemma find_map_update:
  "find (\<lambda>n. n_id n = i) ns = Some n \<Longrightarrow> n_id (f n) = i \<Longrightarrow>
   find (\<lambda>n. n_id n = i) (map (\<lambda>m. if n_id m = i then f m else m) ns) = Some (f n)"
  by (induction ns) (auto split: if_splits)


lemma note_findUnique_note_update:
  "note_findUnique db i = Some n \<Longrightarrow> n_id (f n) = i \<Longrightarrow>
   note_findUnique (note_update db i f) i = Some (f n)"
  by (simp add: note_findUnique_def note_update_def find_map_update)

lemma note_update_sel [simp]:
  "tbl_noteVersion (note_update db i f) = tbl_noteVersion db"
  "tbl_noteUser (note_update db i f) = tbl_noteUser db"
  "tbl_user (note_update db i f) = tbl_user db"
  "tbl_notification (note_update db i f) = tbl_notification db"
  by (simp_all add: note_update_def)

lemma contentChanged_iff:
  "contentChanged dto n \<longleftrightarrow>
     (\<exists>t. up_title dto = Some t \<and> t \<noteq> n_title n) \<or>
     (\<exists>d. up_description dto = Some d \<and> d \<noteq> n_description n)"
  by (cases "up_title dto"; cases "up_description dto") (auto simp: contentChanged_def)








section \<open>Sharing\<close>

text \<open>
  The validation of \<^verbatim>\<open>shareNote\<close> compares two lengths. With unique user ids it passes
  exactly for a duplicate-free list of existing ids.
\<close>

lemma found_count:
  assumes d: "distinct (map u_id us)"
    and len: "length (filter (\<lambda>u. u_id u \<in> set S) us) = length S"
  shows "distinct S \<and> set S \<subseteq> u_id ` set us"
proof -
  let ?F = "filter (\<lambda>u. u_id u \<in> set S) us"
  have "distinct (map u_id ?F)"
    using d by (simp add: distinct_map_filter)
  then have "card (u_id ` set ?F) = length ?F"
    using distinct_card [of "map u_id ?F"] by simp
  moreover have img: "u_id ` set ?F = set S \<inter> u_id ` set us"
    by auto
  ultimately have c: "card (set S \<inter> u_id ` set us) = length S"
    using len by simp
  have le1: "card (set S \<inter> u_id ` set us) \<le> card (set S)"
    by (rule card_mono) auto
  have le2: "card (set S) \<le> length S"
    by (rule card_length)
  from c le1 le2 have cs: "card (set S) = length S" and ci: "card (set S \<inter> u_id ` set us) = card (set S)"
    by simp_all
  from cs have "distinct S" by (rule card_distinct)
  moreover have "set S \<inter> u_id ` set us = set S"
    by (rule card_subset_eq) (use ci in auto)
  then have "set S \<subseteq> u_id ` set us" by blast
  ultimately show ?thesis by simp
qed

lemma shareNote_Inr:
  assumes "shareNote db i S uid = Inr (db', r)"
  obtains n where "note_findUnique db i = Some n" and "n_authorId n = uid"
    and "length (filter (\<lambda>u. u_id u \<in> set S) (tbl_user db)) = length S"
    and "db' = (if n_visibility n = PRIVATE then (\<lambda>d. note_update d i (\<lambda>row. row\<lparr>n_visibility := SHARED\<rparr>)) else (\<lambda>d. d))
           (db\<lparr>tbl_noteUser := filter (\<lambda>g. nu_noteId g \<noteq> i) (tbl_noteUser db) @
                   map (\<lambda>u. \<lparr>nu_noteId = i, nu_userId = u, nu_permission = ''VIEW''\<rparr>) S\<rparr>)"
    and "r = note_findUnique db' i"
proof -
  from assms obtain n where f: "findOne db i uid = Inr n"
    by (cases "findOne db i uid") (auto simp: shareNote_def)
  then have n: "note_findUnique db i = Some n"
    by (auto simp: findOne_def split: option.splits if_splits)
  from assms f have a: "n_authorId n = uid"
    by (auto simp: shareNote_def split: if_splits)
  from assms f a have l: "length (filter (\<lambda>u. u_id u \<in> set S) (tbl_user db)) = length S"
    by (auto simp: shareNote_def Let_def split: if_splits)
  from assms f a l have
    "db' = (if n_visibility n = PRIVATE then (\<lambda>d. note_update d i (\<lambda>row. row\<lparr>n_visibility := SHARED\<rparr>)) else (\<lambda>d. d))
           (db\<lparr>tbl_noteUser := filter (\<lambda>g. nu_noteId g \<noteq> i) (tbl_noteUser db) @
                   map (\<lambda>u. \<lparr>nu_noteId = i, nu_userId = u, nu_permission = ''VIEW''\<rparr>) S\<rparr>)"
    and "r = note_findUnique db' i"
    by (cases S; auto simp: shareNote_def Let_def split: if_splits)+
  with n a l show thesis by (rule that)
qed

lemma shareNote_tbl_noteUser:
  assumes "shareNote db i S uid = Inr (db', r)"
  shows "tbl_noteUser db' = filter (\<lambda>g. nu_noteId g \<noteq> i) (tbl_noteUser db) @
           map (\<lambda>u. \<lparr>nu_noteId = i, nu_userId = u, nu_permission = ''VIEW''\<rparr>) S"
  using assms by (rule shareNote_Inr) (simp split: if_splits)

lemma shareNote_other_tables:
  assumes "shareNote db i S uid = Inr (db', r)"
  shows "tbl_noteVersion db' = tbl_noteVersion db" "tbl_user db' = tbl_user db"
    "tbl_notification db' = tbl_notification db"
  using assms by (rule shareNote_Inr, simp split: if_splits)+

lemma grants_of_note_after:
  "filter (\<lambda>g. nu_noteId g = i)
     (filter (\<lambda>g. nu_noteId g \<noteq> i) gs @
      map (\<lambda>u. \<lparr>nu_noteId = i, nu_userId = u, nu_permission = ''VIEW''\<rparr>) S)
   = map (\<lambda>u. \<lparr>nu_noteId = i, nu_userId = u, nu_permission = ''VIEW''\<rparr>) S"
proof -
  have "filter (\<lambda>g. nu_noteId g = i) (filter (\<lambda>g. nu_noteId g \<noteq> i) gs) = []"
    by (simp add: filter_empty_conv)
  moreover have "filter (\<lambda>g. nu_noteId g = i)
      (map (\<lambda>u. \<lparr>nu_noteId = i, nu_userId = u, nu_permission = ''VIEW''\<rparr>) S)
    = map (\<lambda>u. \<lparr>nu_noteId = i, nu_userId = u, nu_permission = ''VIEW''\<rparr>) S"
    by (induction S) simp_all
  ultimately show ?thesis by simp
qed

lemma grants_of_others_after:
  "filter (\<lambda>g. nu_noteId g \<noteq> i)
     (filter (\<lambda>g. nu_noteId g \<noteq> i) gs @
      map (\<lambda>u. \<lparr>nu_noteId = i, nu_userId = u, nu_permission = ''VIEW''\<rparr>) S)
   = filter (\<lambda>g. nu_noteId g \<noteq> i) gs"
  by (induction S) simp_all

lemma find_map_visibility:
  "find (\<lambda>n. n_id n = i) (map (\<lambda>m. if n_id m = i then m\<lparr>n_visibility := SHARED\<rparr> else m) ns)
     = map_option (\<lambda>m. m\<lparr>n_visibility := SHARED\<rparr>) (find (\<lambda>n. n_id n = i) ns)"
  by (induction ns) auto

lemma share_twice:
  assumes "shareNote db i S1 uid = Inr (db1, r1)"
  shows "shareNote db1 i S2 uid = shareNote db i S2 uid"
  using assms
proof (rule shareNote_Inr)
  fix n
  assume n: "note_findUnique db i = Some n" and a: "n_authorId n = uid"
    and db1: "db1 = (if n_visibility n = PRIVATE then (\<lambda>d. note_update d i (\<lambda>row. row\<lparr>n_visibility := SHARED\<rparr>)) else (\<lambda>d. d))
           (db\<lparr>tbl_noteUser := filter (\<lambda>g. nu_noteId g \<noteq> i) (tbl_noteUser db) @
                   map (\<lambda>u. \<lparr>nu_noteId = i, nu_userId = u, nu_permission = ''VIEW''\<rparr>) S1\<rparr>)"
  have f: "findOne db i uid = Inr n" using n a by (rule findOne_author)
  show ?thesis
  proof (cases "n_visibility n = PRIVATE")
    case True
    have n1: "note_findUnique db1 i = Some (n\<lparr>n_visibility := SHARED\<rparr>)"
      using n True by (simp add: db1 note_findUnique_def note_update_def find_map_visibility)
    have f1: "findOne db1 i uid = Inr (n\<lparr>n_visibility := SHARED\<rparr>)"
      using n1 a by (simp add: findOne_author)
    show ?thesis
      using f f1 a True
      by (simp add: shareNote_def Let_def db1 grants_of_others_after note_update_def
          note_findUnique_def)
  next
    case False
    have n1: "note_findUnique db1 i = Some n"
      using n False by (simp add: db1 note_findUnique_def)
    have f1: "findOne db1 i uid = Inr n"
      using n1 a by (rule findOne_author)
    show ?thesis
      using f f1 a False
      by (simp add: shareNote_def Let_def db1 grants_of_others_after note_findUnique_def)
  qed
qed

text \<open>
  C5. User ids being unique, after a successful share of a note with the list \<open>S\<close> the
  grant rows of the note are exactly one VIEW row per element of \<open>S\<close>, in the order of
  \<open>S\<close>, which has no duplicates and names existing users only; every earlier grant of
  the note is gone and the grants of other notes are untouched. Consequently a share that
  follows a successful share gives the result it would have given alone: \<open>share S1\<close> then
  \<open>share S2\<close> ends in the store of \<open>share S2\<close>.
\<close>

theorem C5_share_replaces_grants:
  assumes "distinct (map u_id (tbl_user db))"
    and "shareNote db i S uid = Inr (db', r)"
  shows "filter (\<lambda>g. nu_noteId g = i) (tbl_noteUser db') =
           map (\<lambda>u. \<lparr>nu_noteId = i, nu_userId = u, nu_permission = ''VIEW''\<rparr>) S \<and>
         distinct S \<and> set S \<subseteq> u_id ` set (tbl_user db) \<and>
         filter (\<lambda>g. nu_noteId g \<noteq> i) (tbl_noteUser db') =
           filter (\<lambda>g. nu_noteId g \<noteq> i) (tbl_noteUser db) \<and>
         (\<forall>S2. shareNote db' i S2 uid = shareNote db i S2 uid)"
proof -
  have len: "length (filter (\<lambda>u. u_id u \<in> set S) (tbl_user db)) = length S"
    using assms(2) by (rule shareNote_Inr)
  have tbl: "tbl_noteUser db' = filter (\<lambda>g. nu_noteId g \<noteq> i) (tbl_noteUser db) @
           map (\<lambda>u. \<lparr>nu_noteId = i, nu_userId = u, nu_permission = ''VIEW''\<rparr>) S"
    using assms(2) by (rule shareNote_tbl_noteUser)
  have a: "filter (\<lambda>g. nu_noteId g = i) (tbl_noteUser db') =
           map (\<lambda>u. \<lparr>nu_noteId = i, nu_userId = u, nu_permission = ''VIEW''\<rparr>) S"
    unfolding tbl by (rule grants_of_note_after)
  have b: "filter (\<lambda>g. nu_noteId g \<noteq> i) (tbl_noteUser db') =
           filter (\<lambda>g. nu_noteId g \<noteq> i) (tbl_noteUser db)"
    unfolding tbl by (rule grants_of_others_after)
  have c: "distinct S \<and> set S \<subseteq> u_id ` set (tbl_user db)"
    using assms(1) len by (rule found_count)
  have d: "\<forall>S2. shareNote db' i S2 uid = shareNote db i S2 uid"
    using assms(2) by (simp add: share_twice)
  from a b c d show ?thesis by simp
qed

theorem C5_witness:
  "distinct (map u_id (tbl_user db_ex)) \<and>
   shareNote db_ex ''n1'' [''bob'', ''carol''] ''alice'' =
     Inr (db_ex\<lparr>tbl_note := [note_ex\<lparr>n_visibility := SHARED\<rparr>],
                tbl_noteUser :=
                  [\<lparr>nu_noteId = ''n1'', nu_userId = ''bob'', nu_permission = ''VIEW''\<rparr>,
                   \<lparr>nu_noteId = ''n1'', nu_userId = ''carol'', nu_permission = ''VIEW''\<rparr>]\<rparr>,
          Some (note_ex\<lparr>n_visibility := SHARED\<rparr>)) \<and>
   shareNote
     (db_ex\<lparr>tbl_note := [note_ex\<lparr>n_visibility := SHARED\<rparr>],
            tbl_noteUser :=
              [\<lparr>nu_noteId = ''n1'', nu_userId = ''bob'', nu_permission = ''VIEW''\<rparr>,
               \<lparr>nu_noteId = ''n1'', nu_userId = ''carol'', nu_permission = ''VIEW''\<rparr>]\<rparr>)
     ''n1'' [''carol''] ''alice'' =
     Inr (db_ex\<lparr>tbl_note := [note_ex\<lparr>n_visibility := SHARED\<rparr>],
                tbl_noteUser :=
                  [\<lparr>nu_noteId = ''n1'', nu_userId = ''carol'', nu_permission = ''VIEW''\<rparr>]\<rparr>,
          Some (note_ex\<lparr>n_visibility := SHARED\<rparr>))"
proof -
  have h1: "distinct (map u_id (tbl_user db_ex))"
    by (simp add: db_ex_def users_ex_def)
  have h2: "shareNote db_ex ''n1'' [''bob'', ''carol''] ''alice'' =
     Inr (db_ex\<lparr>tbl_note := [note_ex\<lparr>n_visibility := SHARED\<rparr>],
                tbl_noteUser :=
                  [\<lparr>nu_noteId = ''n1'', nu_userId = ''bob'', nu_permission = ''VIEW''\<rparr>,
                   \<lparr>nu_noteId = ''n1'', nu_userId = ''carol'', nu_permission = ''VIEW''\<rparr>]\<rparr>,
          Some (note_ex\<lparr>n_visibility := SHARED\<rparr>))"
    by (simp add: shareNote_def findOne_def hasAccess_def note_findUnique_def note_update_def
        Let_def db_ex_def note_ex_def users_ex_def)
  have h3: "shareNote db_ex ''n1'' [''carol''] ''alice'' =
     Inr (db_ex\<lparr>tbl_note := [note_ex\<lparr>n_visibility := SHARED\<rparr>],
                tbl_noteUser :=
                  [\<lparr>nu_noteId = ''n1'', nu_userId = ''carol'', nu_permission = ''VIEW''\<rparr>]\<rparr>,
          Some (note_ex\<lparr>n_visibility := SHARED\<rparr>))"
    by (simp add: shareNote_def findOne_def hasAccess_def note_findUnique_def note_update_def
        Let_def db_ex_def note_ex_def users_ex_def)
  from C5_share_replaces_grants [OF h1 h2] have
    "shareNote
     (db_ex\<lparr>tbl_note := [note_ex\<lparr>n_visibility := SHARED\<rparr>],
            tbl_noteUser :=
              [\<lparr>nu_noteId = ''n1'', nu_userId = ''bob'', nu_permission = ''VIEW''\<rparr>,
               \<lparr>nu_noteId = ''n1'', nu_userId = ''carol'', nu_permission = ''VIEW''\<rparr>]\<rparr>)
     ''n1'' [''carol''] ''alice'' = shareNote db_ex ''n1'' [''carol''] ''alice''"
    by blast
  with h1 h2 h3 show ?thesis by simp
qed

text \<open>
  C8. The claim asks that a share never creates a grant for the note's own author, whatever
  the grantee list. \<^verbatim>\<open>shareNote\<close> checks only that the listed ids exist and never
  compares them with the author, although the endpoint is documented as sharing a note
  with other users and \<^verbatim>\<open>getUsersToShareNote\<close> leaves the requester out of the users
  offered for sharing: when Alice, the author of the note, shares it with the list holding
  her own id, the share succeeds and the one grant row of the note afterwards is hers.
\<close>

theorem C8_share_with_own_id_grants_author:
  "shareNote db_ex ''n1'' [''alice''] ''alice'' =
     Inr (db_ex\<lparr>tbl_note := [note_ex\<lparr>n_visibility := SHARED\<rparr>],
                tbl_noteUser :=
                  [\<lparr>nu_noteId = ''n1'', nu_userId = ''alice'', nu_permission = ''VIEW''\<rparr>]\<rparr>,
          Some (note_ex\<lparr>n_visibility := SHARED\<rparr>)) \<and>
   n_authorId (note_ex\<lparr>n_visibility := SHARED\<rparr>) = ''alice''"
  by (simp add: shareNote_def findOne_def hasAccess_def note_findUnique_def note_update_def
      Let_def db_ex_def note_ex_def users_ex_def)

text \<open>
  C10. A share by the author with the empty list succeeds: it deletes every grant row of
  the note and inserts none, and it turns a PRIVATE note SHARED (another visibility is
  kept). The note then has no grant at all, and sharing the empty list again leaves
  exactly this state.
\<close>

theorem C10_share_empty_list:
  assumes "note_findUnique db i = Some n" and "n_authorId n = uid"
  shows "\<exists>db'. shareNote db i [] uid =
            Inr (db', Some (if n_visibility n = PRIVATE then n\<lparr>n_visibility := SHARED\<rparr> else n)) \<and>
          tbl_noteUser db' = filter (\<lambda>g. nu_noteId g \<noteq> i) (tbl_noteUser db) \<and>
          filter (\<lambda>g. nu_noteId g = i) (tbl_noteUser db') = [] \<and>
          (n_visibility n = PRIVATE \<longrightarrow>
             note_findUnique db' i = Some (n\<lparr>n_visibility := SHARED\<rparr>)) \<and>
          shareNote db' i [] uid = shareNote db i [] uid"
proof -
  have f: "findOne db i uid = Inr n" using assms by (rule findOne_author)
  have look: "n_visibility n = PRIVATE \<Longrightarrow>
      find (\<lambda>n. n_id n = i) (map (\<lambda>m. if n_id m = i then m\<lparr>n_visibility := SHARED\<rparr> else m) (tbl_note db))
      = Some (n\<lparr>n_visibility := SHARED\<rparr>)"
    using assms(1) by (simp add: find_map_visibility note_findUnique_def)
  obtain db' r where s: "shareNote db i [] uid = Inr (db', r)"
    using f assms(2) by (simp add: shareNote_def Let_def)
  have r: "r = Some (if n_visibility n = PRIVATE then n\<lparr>n_visibility := SHARED\<rparr> else n)"
    using s f assms look
    by (auto simp: shareNote_def Let_def note_findUnique_def note_update_def split: if_splits)
  have t: "tbl_noteUser db' = filter (\<lambda>g. nu_noteId g \<noteq> i) (tbl_noteUser db)"
    using shareNote_tbl_noteUser [OF s] by simp
  have e: "filter (\<lambda>g. nu_noteId g = i) (tbl_noteUser db') = []"
    by (simp add: t filter_empty_conv)
  have v: "n_visibility n = PRIVATE \<longrightarrow> note_findUnique db' i = Some (n\<lparr>n_visibility := SHARED\<rparr>)"
    using s f assms look
    by (auto simp: shareNote_def Let_def note_findUnique_def note_update_def split: if_splits)
  have again: "shareNote db' i [] uid = shareNote db i [] uid"
    using s by (rule share_twice)
  from s r t e v again show ?thesis by blast
qed

theorem C10_witness:
  "note_findUnique db_shared_ex ''n1'' = Some (note_ex\<lparr>n_visibility := SHARED\<rparr>) \<and>
   n_authorId (note_ex\<lparr>n_visibility := SHARED\<rparr>) = ''alice'' \<and>
   note_findUnique db_ex ''n1'' = Some note_ex \<and> n_visibility note_ex = PRIVATE \<and>
   shareNote db_shared_ex ''n1'' [] ''alice'' =
     Inr (db_shared_ex\<lparr>tbl_noteUser := []\<rparr>, Some (note_ex\<lparr>n_visibility := SHARED\<rparr>)) \<and>
   shareNote db_ex ''n1'' [] ''alice'' =
     Inr (db_ex\<lparr>tbl_note := [note_ex\<lparr>n_visibility := SHARED\<rparr>]\<rparr>,
          Some (note_ex\<lparr>n_visibility := SHARED\<rparr>)) \<and>
   shareNote (db_ex\<lparr>tbl_note := [note_ex\<lparr>n_visibility := SHARED\<rparr>]\<rparr>) ''n1'' [] ''alice'' =
     Inr (db_ex\<lparr>tbl_note := [note_ex\<lparr>n_visibility := SHARED\<rparr>]\<rparr>,
          Some (note_ex\<lparr>n_visibility := SHARED\<rparr>))"
proof -
  have h1: "note_findUnique db_shared_ex ''n1'' = Some (note_ex\<lparr>n_visibility := SHARED\<rparr>)"
    by (simp add: note_findUnique_def db_shared_ex_def note_ex_def)
  have h2: "n_authorId (note_ex\<lparr>n_visibility := SHARED\<rparr>) = ''alice''"
    by (simp add: note_ex_def)
  have g1: "note_findUnique db_ex ''n1'' = Some note_ex"
    by (simp add: note_findUnique_def db_ex_def note_ex_def)
  have g2: "n_authorId note_ex = ''alice''" and g3: "n_visibility note_ex = PRIVATE"
    by (simp_all add: note_ex_def)
  have a: "shareNote db_shared_ex ''n1'' [] ''alice'' =
     Inr (db_shared_ex\<lparr>tbl_noteUser := []\<rparr>, Some (note_ex\<lparr>n_visibility := SHARED\<rparr>))"
    by (simp add: shareNote_def findOne_def hasAccess_def note_findUnique_def note_update_def
        Let_def db_shared_ex_def note_ex_def users_ex_def)
  have b: "shareNote db_ex ''n1'' [] ''alice'' =
     Inr (db_ex\<lparr>tbl_note := [note_ex\<lparr>n_visibility := SHARED\<rparr>]\<rparr>,
          Some (note_ex\<lparr>n_visibility := SHARED\<rparr>))"
    by (simp add: shareNote_def findOne_def hasAccess_def note_findUnique_def note_update_def
        Let_def db_ex_def note_ex_def users_ex_def)
  from C10_share_empty_list [OF g1 g2] b
  have c: "shareNote (db_ex\<lparr>tbl_note := [note_ex\<lparr>n_visibility := SHARED\<rparr>]\<rparr>) ''n1'' [] ''alice'' =
     shareNote db_ex ''n1'' [] ''alice''"
    by auto
  from C10_share_empty_list [OF h1 h2] have "\<exists>db'. shareNote db_shared_ex ''n1'' [] ''alice'' =
      Inr (db', Some (note_ex\<lparr>n_visibility := SHARED\<rparr>))"
    by (auto simp: note_ex_def)
  with h1 h2 g1 g3 a b c show ?thesis by simp
qed

text \<open>
  C6. The claim asks for one NOTE_SHARED notification per grantee of a successful share.
  \<^verbatim>\<open>shareNote\<close> never calls the helper that writes such a row: when Alice shares her note
  with Bob the share succeeds and the notification table is still empty, whereas the
  helper, had it been called for Bob, would have added his row.
\<close>

theorem C6_share_writes_no_notification:
  "shareNote db_ex ''n1'' [''bob''] ''alice'' =
     Inr (db_ex\<lparr>tbl_note := [note_ex\<lparr>n_visibility := SHARED\<rparr>],
                tbl_noteUser :=
                  [\<lparr>nu_noteId = ''n1'', nu_userId = ''bob'', nu_permission = ''VIEW''\<rparr>]\<rparr>,
          Some (note_ex\<lparr>n_visibility := SHARED\<rparr>)) \<and>
   tbl_notification
     (db_ex\<lparr>tbl_note := [note_ex\<lparr>n_visibility := SHARED\<rparr>],
            tbl_noteUser :=
              [\<lparr>nu_noteId = ''n1'', nu_userId = ''bob'', nu_permission = ''VIEW''\<rparr>]\<rparr>) = [] \<and>
   tbl_notification (createNoteSharedNotification db_ex ''n1'' ''T'' ''bob'' ''alice'') =
     [\<lparr>nt_userId = ''bob'', nt_type = NOTE_SHARED, nt_title = ''Note Shared'',
       nt_message = ''Alice shared a note '' @ [CHR 0x22] @ ''T'' @ [CHR 0x22] @ '' with you'',
       nt_data = [(''noteId'', ''n1''), (''sharedByUserId'', ''alice'')], nt_read = False\<rparr>]"
  by (simp add: shareNote_def findOne_def hasAccess_def note_findUnique_def note_update_def
      createNoteSharedNotification_def Let_def db_ex_def note_ex_def users_ex_def)

section \<open>The sequence of version numbers\<close>

lemma find_append_skip:
  "\<forall>x \<in> set xs. \<not> P x \<Longrightarrow> find P (xs @ ys) = find P ys"
  by (induction xs) simp_all

lemma update_versions_cases:
  assumes "update db i dto u = Inr (db', n')"
  shows "tbl_noteVersion db' = tbl_noteVersion db \<or>
         (\<exists>t d. tbl_noteVersion db' = tbl_noteVersion db @
            [\<lparr>nv_noteId = i, nv_title = t, nv_description = d,
              nv_version = nextVersion db i, nv_createdBy = u\<rparr>])"
proof -
  from assms obtain n where f: "findOne db i u = Inr n"
    by (cases "findOne db i u") (auto simp: update_def)
  with assms show ?thesis
    by (auto simp: update_def Let_def noteVersion_create_def split: if_splits)
qed

lemma restore_versions_cases:
  assumes "restoreVersion db i v u = Inr (db', n')"
  shows "\<exists>t d. tbl_noteVersion db' = tbl_noteVersion db @
            [\<lparr>nv_noteId = i, nv_title = t, nv_description = d,
              nv_version = nextVersion db i, nv_createdBy = u\<rparr>]"
proof -
  from assms obtain n where f: "findOne db i u = Inr n"
    by (cases "findOne db i u") (auto simp: restoreVersion_def)
  with assms show ?thesis
    by (auto simp: restoreVersion_def Let_def noteVersion_create_def
        split: if_splits option.splits)
qed

lemma Max_upto_int: "0 < n \<Longrightarrow> Max (set [1..int n]) = int n"
  by (intro Max_eqI) auto

lemma nextVersion_numbered:
  assumes "map nv_version (versions_of db i) = [1..int (length (versions_of db i))]"
  shows "nextVersion db i = int (length (versions_of db i)) + 1"
proof (cases "versions_of db i = []")
  case True
  then show ?thesis by (simp add: nextVersion_Max)
next
  case False
  have "nv_version ` set (versions_of db i) = set (map nv_version (versions_of db i))"
    by simp
  also have "\<dots> = set [1..int (length (versions_of db i))]"
    by (simp only: assms [symmetric])
  finally have "nv_version ` set (versions_of db i) = set [1..int (length (versions_of db i))]" .
  moreover have "0 < length (versions_of db i)"
    using False by simp
  ultimately have "Max (nv_version ` set (versions_of db i)) = int (length (versions_of db i))"
    by (simp only: Max_upto_int)
  with False show ?thesis by (simp add: nextVersion_Max)
qed

lemma numbered_append:
  assumes inv: "map nv_version (versions_of db i) = [1..int (length (versions_of db i))]"
    and tbl: "tbl_noteVersion db' = tbl_noteVersion db @ [row]"
    and row: "nv_noteId row = i" "nv_version row = nextVersion db i"
  shows "map nv_version (versions_of db' i) = [1..int (length (versions_of db' i))]"
proof -
  have vs: "versions_of db' i = versions_of db i @ [row]"
    using tbl row(1) by (simp add: versions_of_def)
  have nv: "nv_version row = int (length (versions_of db i)) + 1"
    using row(2) nextVersion_numbered [OF inv] by simp
  have "[1..int (length (versions_of db i)) + 1] =
        [1..int (length (versions_of db i))] @ [int (length (versions_of db i)) + 1]"
    using upto_rec2 [of 1 "int (length (versions_of db i)) + 1"] by simp
  with inv nv show ?thesis
    by (simp add: vs add.commute)
qed

lemma applyOp_versions:
  "versions_of (applyOp i db op) i = versions_of db i \<or>
   (\<exists>row. tbl_noteVersion (applyOp i db op) = tbl_noteVersion db @ [row] \<and>
          nv_noteId row = i \<and> nv_version row = nextVersion db i)"
proof (cases op)
  case (OpUpdate dto u)
  show ?thesis
  proof (cases "update db i dto u")
    case (Inl e)
    with OpUpdate show ?thesis by simp
  next
    case (Inr r)
    then have "update db i dto u = Inr (fst r, snd r)" by simp
    from update_versions_cases [OF this] OpUpdate Inr show ?thesis
      by (auto simp: versions_of_def)
  qed
next
  case (OpRestore v u)
  show ?thesis
  proof (cases "restoreVersion db i v u")
    case (Inl e)
    with OpRestore show ?thesis by simp
  next
    case (Inr r)
    then have "restoreVersion db i v u = Inr (fst r, snd r)" by simp
    from restore_versions_cases [OF this] OpRestore Inr show ?thesis
      by auto
  qed
next
  case (OpShare S u)
  show ?thesis
  proof (cases "shareNote db i S u")
    case (Inl e)
    with OpShare show ?thesis by simp
  next
    case (Inr r)
    then have "shareNote db i S u = Inr (fst r, snd r)" by simp
    from shareNote_other_tables(1) [OF this] OpShare Inr show ?thesis
      by (simp add: versions_of_def)
  qed
qed

lemma applyOp_numbered:
  assumes "map nv_version (versions_of db i) = [1..int (length (versions_of db i))]"
  shows "map nv_version (versions_of (applyOp i db op) i) =
           [1..int (length (versions_of (applyOp i db op) i))] \<and>
         prefix (versions_of db i) (versions_of (applyOp i db op) i)"
  using applyOp_versions [of i db op]
proof
  assume "versions_of (applyOp i db op) i = versions_of db i"
  with assms show ?thesis by simp
next
  assume "\<exists>row. tbl_noteVersion (applyOp i db op) = tbl_noteVersion db @ [row] \<and>
          nv_noteId row = i \<and> nv_version row = nextVersion db i"
  then obtain row where r: "tbl_noteVersion (applyOp i db op) = tbl_noteVersion db @ [row]"
      "nv_noteId row = i" "nv_version row = nextVersion db i"
    by blast
  from numbered_append [OF assms r] r(1,2) show ?thesis
    by (simp add: versions_of_def)
qed

lemma applyOps_numbered:
  assumes "map nv_version (versions_of db i) = [1..int (length (versions_of db i))]"
  shows "map nv_version (versions_of (applyOps i db ops) i) =
           [1..int (length (versions_of (applyOps i db ops) i))] \<and>
         prefix (versions_of db i) (versions_of (applyOps i db ops) i)"
  using assms
proof (induction ops arbitrary: db)
  case Nil
  then show ?case by (simp add: applyOps_def)
next
  case (Cons op ops)
  from applyOp_numbered [OF Cons.prems, of op]
  have s: "map nv_version (versions_of (applyOp i db op) i) =
           [1..int (length (versions_of (applyOp i db op) i))]"
    and p: "prefix (versions_of db i) (versions_of (applyOp i db op) i)"
    by simp_all
  from Cons.IH [OF s] p show ?case
    by (auto simp: applyOps_def intro: prefix_order.trans)
qed

lemma create_tables:
  "tbl_note (fst (create db0 i dto a)) = tbl_note db0 @
     [\<lparr>n_id = i, n_title = c_title dto, n_description = c_description dto,
       n_tags = (case c_tags dto of None \<Rightarrow> [] | Some ts \<Rightarrow> ts),
       n_visibility = (case c_visibility dto of None \<Rightarrow> PRIVATE | Some v \<Rightarrow> v),
       n_authorId = a\<rparr>]"
  "tbl_noteVersion (fst (create db0 i dto a)) = tbl_noteVersion db0 @
     [\<lparr>nv_noteId = i, nv_title = c_title dto, nv_description = c_description dto,
       nv_version = 1, nv_createdBy = a\<rparr>]"
  by (simp_all add: create_def Let_def)

lemma update_by_author:
  assumes "note_findUnique db i = Some n" and "n_authorId n = uid"
  shows "update db i dto uid =
           Inr (if contentChanged dto n
                then noteVersion_create (note_update db i (applyUpdate dto n))
                       \<lparr>nv_noteId = i, nv_title = n_title (applyUpdate dto n n),
                        nv_description = n_description (applyUpdate dto n n),
                        nv_version = nextVersion db i, nv_createdBy = uid\<rparr>
                else note_update db i (applyUpdate dto n),
                applyUpdate dto n n)"
  using findOne_author [OF assms] assms(2)
  by (simp add: update_def Let_def)

lemma restore_by_author:
  assumes "note_findUnique db i = Some n" and "n_authorId n = uid"
    and "findVersion db i v = Some tv"
  shows "restoreVersion db i v uid =
           Inr (noteVersion_create
                  (note_update db i
                     (\<lambda>row. row\<lparr>n_title := nv_title tv, n_description := nv_description tv\<rparr>))
                  \<lparr>nv_noteId = i, nv_title = nv_title tv, nv_description = nv_description tv,
                   nv_version = nextVersion db i, nv_createdBy = uid\<rparr>,
                n\<lparr>n_title := nv_title tv, n_description := nv_description tv\<rparr>)"
  using findOne_author [OF assms(1,2)] assms(2,3)
  by (simp add: restoreVersion_def Let_def)

lemma noteVersion_create_sel [simp]:
  "tbl_note (noteVersion_create db row) = tbl_note db"
  "tbl_noteVersion (noteVersion_create db row) = tbl_noteVersion db @ [row]"
  "note_findUnique (noteVersion_create db row) i = note_findUnique db i"
  by (simp_all add: noteVersion_create_def note_findUnique_def)

text \<open>
  C4. Let a note be created under a fresh id, and let any sequence of updates, restores and
  shares be requested on it, by any users, the failing requests leaving the store as it
  was. Then the version numbers of the note, in insertion order, are exactly 1, 2, ..., n
  for the number n of its version rows, and version 1 is still the row written by the
  creation. In particular, after the creation, an update by the author that changes the
  title or the description, and a restore of version 1 by the author, both requests
  succeed, the versions are numbered 1, 2, 3, versions 1 and 2 are the rows written before
  the restore, version 3 carries the content of version 1, and so does the note.
\<close>

theorem C4_version_sequence:
  assumes fresh_note: "i \<notin> n_id ` set (tbl_note db0)"
    and fresh_versions: "\<forall>v \<in> set (tbl_noteVersion db0). nv_noteId v \<noteq> i"
  shows "map nv_version (versions_of (applyOps i (fst (create db0 i dto a)) ops) i) =
           [1..int (length (versions_of (applyOps i (fst (create db0 i dto a)) ops) i))] \<and>
         prefix [\<lparr>nv_noteId = i, nv_title = c_title dto, nv_description = c_description dto,
                  nv_version = 1, nv_createdBy = a\<rparr>]
           (versions_of (applyOps i (fst (create db0 i dto a)) ops) i) \<and>
         (\<forall>dto2. (\<exists>t. up_title dto2 = Some t \<and> t \<noteq> c_title dto) \<or>
                 (\<exists>d. up_description dto2 = Some d \<and> d \<noteq> c_description dto) \<longrightarrow>
            (\<exists>db2 n2 db3 n3.
               update (fst (create db0 i dto a)) i dto2 a = Inr (db2, n2) \<and>
               restoreVersion db2 i 1 a = Inr (db3, n3) \<and>
               versions_of db2 i =
                 [\<lparr>nv_noteId = i, nv_title = c_title dto, nv_description = c_description dto,
                   nv_version = 1, nv_createdBy = a\<rparr>,
                  \<lparr>nv_noteId = i,
                   nv_title = (case up_title dto2 of None \<Rightarrow> c_title dto | Some t \<Rightarrow> t),
                   nv_description =
                     (case up_description dto2 of None \<Rightarrow> c_description dto | Some d \<Rightarrow> d),
                   nv_version = 2, nv_createdBy = a\<rparr>] \<and>
               versions_of db3 i = versions_of db2 i @
                 [\<lparr>nv_noteId = i, nv_title = c_title dto, nv_description = c_description dto,
                   nv_version = 3, nv_createdBy = a\<rparr>] \<and>
               note_findUnique db3 i = Some n3 \<and>
               n_title n3 = c_title dto \<and> n_description n3 = c_description dto))"
proof -
  let ?dbc = "fst (create db0 i dto a)"
  let ?note = "\<lparr>n_id = i, n_title = c_title dto, n_description = c_description dto,
       n_tags = (case c_tags dto of None \<Rightarrow> [] | Some ts \<Rightarrow> ts),
       n_visibility = (case c_visibility dto of None \<Rightarrow> PRIVATE | Some v \<Rightarrow> v),
       n_authorId = a\<rparr>"
  let ?v1 = "\<lparr>nv_noteId = i, nv_title = c_title dto, nv_description = c_description dto,
                  nv_version = 1, nv_createdBy = a\<rparr>"
  have old: "filter (\<lambda>v. nv_noteId v = i) (tbl_noteVersion db0) = []"
    using fresh_versions by (simp add: filter_empty_conv)
  have vc: "versions_of ?dbc i = [?v1]"
    by (simp add: versions_of_def create_tables old)
  have numbered: "map nv_version (versions_of ?dbc i) = [1..int (length (versions_of ?dbc i))]"
    by (simp add: vc)
  from applyOps_numbered [OF numbered, of ops]
  have part1: "map nv_version (versions_of (applyOps i ?dbc ops) i) =
           [1..int (length (versions_of (applyOps i ?dbc ops) i))]"
    and part2: "prefix [?v1] (versions_of (applyOps i ?dbc ops) i)"
    by (simp_all add: vc)
  have nc: "note_findUnique ?dbc i = Some ?note"
  proof -
    have "\<forall>x \<in> set (tbl_note db0). \<not> n_id x = i"
      using fresh_note by auto
    then show ?thesis
      by (simp add: note_findUnique_def create_tables find_append_skip)
  qed
  have part3: "\<exists>db2 n2 db3 n3.
               update ?dbc i dto2 a = Inr (db2, n2) \<and>
               restoreVersion db2 i 1 a = Inr (db3, n3) \<and>
               versions_of db2 i =
                 [?v1,
                  \<lparr>nv_noteId = i,
                   nv_title = (case up_title dto2 of None \<Rightarrow> c_title dto | Some t \<Rightarrow> t),
                   nv_description =
                     (case up_description dto2 of None \<Rightarrow> c_description dto | Some d \<Rightarrow> d),
                   nv_version = 2, nv_createdBy = a\<rparr>] \<and>
               versions_of db3 i = versions_of db2 i @
                 [\<lparr>nv_noteId = i, nv_title = c_title dto, nv_description = c_description dto,
                   nv_version = 3, nv_createdBy = a\<rparr>] \<and>
               note_findUnique db3 i = Some n3 \<and>
               n_title n3 = c_title dto \<and> n_description n3 = c_description dto"
    if ch: "(\<exists>t. up_title dto2 = Some t \<and> t \<noteq> c_title dto) \<or>
            (\<exists>d. up_description dto2 = Some d \<and> d \<noteq> c_description dto)" for dto2
  proof -
    let ?n2 = "applyUpdate dto2 ?note ?note"
    let ?v2 = "\<lparr>nv_noteId = i,
                   nv_title = (case up_title dto2 of None \<Rightarrow> c_title dto | Some t \<Rightarrow> t),
                   nv_description =
                     (case up_description dto2 of None \<Rightarrow> c_description dto | Some d \<Rightarrow> d),
                   nv_version = 2, nv_createdBy = a\<rparr>"
    let ?db2 = "noteVersion_create (note_update ?dbc i (applyUpdate dto2 ?note)) ?v2"
    have cc: "contentChanged dto2 ?note"
      using ch by (simp add: contentChanged_iff)
    have next2: "nextVersion ?dbc i = 2"
      using nextVersion_numbered [OF numbered] by (simp add: vc)
    have u: "update ?dbc i dto2 a = Inr (?db2, ?n2)"
      using update_by_author [OF nc, of a dto2] cc next2
      by (simp add: applyUpdate_def cong: option.case_cong)
    have v2: "versions_of ?db2 i = [?v1, ?v2]"
      using vc by (simp add: versions_of_def)
    have n2: "note_findUnique ?db2 i = Some ?n2"
      using nc by (simp add: note_findUnique_note_update applyUpdate_def)
    have a2: "n_authorId ?n2 = a"
      by (simp add: applyUpdate_def)
    have fv: "findVersion ?db2 i 1 = Some ?v1"
      using fresh_versions
      by (simp add: findVersion_def create_tables find_append_skip)
    have numbered2: "map nv_version (versions_of ?db2 i) = [1..int (length (versions_of ?db2 i))]"
      by (simp add: v2 upto_rec1)
    have next3: "nextVersion ?db2 i = 3"
      using nextVersion_numbered [OF numbered2] by (simp add: v2)
    let ?n3 = "?n2\<lparr>n_title := c_title dto, n_description := c_description dto\<rparr>"
    let ?v3 = "\<lparr>nv_noteId = i, nv_title = c_title dto, nv_description = c_description dto,
                   nv_version = 3, nv_createdBy = a\<rparr>"
    let ?db3 = "noteVersion_create
                  (note_update ?db2 i
                     (\<lambda>row. row\<lparr>n_title := c_title dto, n_description := c_description dto\<rparr>)) ?v3"
    have r: "restoreVersion ?db2 i 1 a = Inr (?db3, ?n3)"
      using restore_by_author [OF n2 a2 fv] next3 by simp
    have v3: "versions_of ?db3 i = versions_of ?db2 i @ [?v3]"
      by (simp add: versions_of_def)
    have n3: "note_findUnique ?db3 i = Some ?n3"
      using n2 by (simp add: note_findUnique_note_update applyUpdate_def)
    from u r v2 v3 n3 show ?thesis
      by (intro exI [of _ ?db2] exI [of _ ?n2] exI [of _ ?db3] exI [of _ ?n3]) simp
  qed
  from part1 part2 part3 show ?thesis by blast
qed

lemmas run_defs = applyOps_def update_def restoreVersion_def shareNote_def findOne_def hasAccess_def
  note_findUnique_def note_update_def noteVersion_create_def nextVersion_def latestVersion_def
  versions_of_def findVersion_def contentChanged_def applyUpdate_def include_noteUsers_def
  create_def Let_def

theorem C4_witness:
  "''n1'' \<notin> n_id ` set (tbl_note db_empty_ex) \<and>
   tbl_noteVersion db_empty_ex = [] \<and>
   map nv_version
     (versions_of
        (applyOps ''n1''
           (fst (create db_empty_ex ''n1''
                   \<lparr>c_title = ''T'', c_description = ''B'', c_tags = None, c_visibility = None\<rparr>
                   ''alice''))
           [OpUpdate \<lparr>up_title = None, up_description = Some ''B2'', up_tags = None,
                      up_visibility = None\<rparr> ''alice'',
            OpUpdate \<lparr>up_title = Some ''X'', up_description = None, up_tags = None,
                      up_visibility = None\<rparr> ''bob'',
            OpRestore 1 ''alice'',
            OpShare [''bob''] ''alice'',
            OpRestore 9 ''alice''])
        ''n1'') = [1, 2, 3]"
proof -
  let ?db = "applyOps ''n1''
           (fst (create db_empty_ex ''n1''
                   \<lparr>c_title = ''T'', c_description = ''B'', c_tags = None, c_visibility = None\<rparr>
                   ''alice''))
           [OpUpdate \<lparr>up_title = None, up_description = Some ''B2'', up_tags = None,
                      up_visibility = None\<rparr> ''alice'',
            OpUpdate \<lparr>up_title = Some ''X'', up_description = None, up_tags = None,
                      up_visibility = None\<rparr> ''bob'',
            OpRestore 1 ''alice'',
            OpShare [''bob''] ''alice'',
            OpRestore 9 ''alice'']"
  have h1: "''n1'' \<notin> n_id ` set (tbl_note db_empty_ex)"
    by (simp add: db_empty_ex_def)
  have h2: "\<forall>v \<in> set (tbl_noteVersion db_empty_ex). nv_noteId v \<noteq> ''n1''"
    by (simp add: db_empty_ex_def)
  have len: "length (versions_of ?db ''n1'') = 3"
    by (simp add: run_defs db_empty_ex_def users_ex_def)
  from C4_version_sequence [OF h1 h2, of
      "\<lparr>c_title = ''T'', c_description = ''B'', c_tags = None, c_visibility = None\<rparr>" "''alice''"]
  have "map nv_version (versions_of ?db ''n1'') = [1..int (length (versions_of ?db ''n1''))]"
    by blast
  then have "map nv_version (versions_of ?db ''n1'') = [1, 2, 3]"
    by (simp only: len) (simp add: upto_rec1)
  moreover have "tbl_noteVersion db_empty_ex = []"
    by (simp add: db_empty_ex_def)
  ultimately show ?thesis using h1 by blast
qed

section \<open>The presence registry\<close>

lemma handleConnection_registers:
  assumes "handleConnection verify db reg client = (reg', client')" and "s_userId client' \<noteq> s_userId client"
  shows "\<exists>uid. s_userId client' = Some uid \<and> reg' = reg(uid \<mapsto> s_id client) \<and> s_connected client' = s_connected client"
  using assms
  by (auto simp: handleConnection_def client_disconnect_def split: option.splits if_splits)

lemma handleDisconnect_removes:
  "s_userId client = Some uid \<Longrightarrow> uid \<noteq> [] \<Longrightarrow> handleDisconnect reg client = reg(uid := None)"
  by (simp add: handleDisconnect_def)

text \<open>
  C9. The claim asks that a user whose most recent connection is still live stays
  registered under it. \<^verbatim>\<open>handleDisconnect\<close> deletes the user's entry without comparing
  the stored socket id with the socket that closes: Alice connects on socket s1, then on
  socket s2, which replaces s1 in the registry; when s1 closes, her entry is deleted
  although s2 is still connected, and \<^verbatim>\<open>isUserOnline\<close> reports her offline.
\<close>

theorem C9_stale_disconnect_drops_live_user:
  "fst (handleConnection verify_ex db_ex Map.empty socket1_ex) ''alice'' = Some ''s1'' \<and>
   fst (handleConnection verify_ex db_ex
          (fst (handleConnection verify_ex db_ex Map.empty socket1_ex)) socket2_ex) ''alice''
     = Some ''s2'' \<and>
   s_connected (snd (handleConnection verify_ex db_ex
          (fst (handleConnection verify_ex db_ex Map.empty socket1_ex)) socket2_ex)) \<and>
   handleDisconnect
     (fst (handleConnection verify_ex db_ex
             (fst (handleConnection verify_ex db_ex Map.empty socket1_ex)) socket2_ex))
     (snd (handleConnection verify_ex db_ex Map.empty socket1_ex)) ''alice'' = None \<and>
   \<not> isUserOnline
     (handleDisconnect
        (fst (handleConnection verify_ex db_ex
                (fst (handleConnection verify_ex db_ex Map.empty socket1_ex)) socket2_ex))
        (snd (handleConnection verify_ex db_ex Map.empty socket1_ex))) ''alice''"
  by (simp add: handleConnection_def handleDisconnect_def handshake_token_def isUserOnline_def
      client_disconnect_def verify_ex_def socket1_ex_def socket2_ex_def db_ex_def users_ex_def)

end
